theory Spec2Isabelle
  imports Complex_Main "HOL-Library.Multiset"
begin

section \<open>JavaScript values and errors\<close>

text \<open>
  The dashboard is one JavaScript module (\<^verbatim>\<open>src/App.js\<close>). Values that the code only tests
  for truthiness, passes through or reads a property of are modelled by \<open>jsval\<close>; numbers
  are finite doubles, written as the rationals they denote.
\<close>

datatype jsval =
    JUndefined
  | JNull
  | JBool bool
  | JNum rat
  | JStr string
  | JArr "jsval list"
  | JObj "(string \<times> jsval) list"

text \<open>A thrown value: \<^verbatim>\<open>new Error(msg)\<close>, or the \<^verbatim>\<open>TypeError\<close> and \<^verbatim>\<open>SyntaxError\<close> of
  the platform. The code only ever reads \<^verbatim>\<open>err.message\<close>.\<close>

datatype js_error = Error string | TypeError string | SyntaxError string

fun message :: "js_error \<Rightarrow> string" where
  "message (Error m) = m"
| "message (TypeError m) = m"
| "message (SyntaxError m) = m"

text \<open>\<^verbatim>\<open>ToBoolean\<close>: the falsy values are \<^verbatim>\<open>undefined\<close>, \<^verbatim>\<open>null\<close>, \<^verbatim>\<open>false\<close>, zero and
  the empty string (\<^verbatim>\<open>NaN\<close> is not a value of JSON).\<close>

fun to_boolean :: "jsval \<Rightarrow> bool" where
  "to_boolean JUndefined = False"
| "to_boolean JNull = False"
| "to_boolean (JBool b) = b"
| "to_boolean (JNum x) = (x \<noteq> 0)"
| "to_boolean (JStr s) = (s \<noteq> [])"
| "to_boolean (JArr xs) = True"
| "to_boolean (JObj ps) = True"

text \<open>\<^verbatim>\<open>a || b\<close>\<close>

definition js_or :: "jsval \<Rightarrow> jsval \<Rightarrow> jsval" where
  "js_or a b = (if to_boolean a then a else b)"

text \<open>\<^verbatim>\<open>v.login\<close>: reading a property of \<^verbatim>\<open>undefined\<close> or \<^verbatim>\<open>null\<close> throws a
  \<^verbatim>\<open>TypeError\<close> (the message is V8's); an object yields the property or \<^verbatim>\<open>undefined\<close>;
  the other values have no own property of that name.\<close>

fun get_login :: "jsval \<Rightarrow> js_error + jsval" where
  "get_login JUndefined =
     Inl (TypeError ''Cannot read properties of undefined (reading 'login')'')"
| "get_login JNull =
     Inl (TypeError ''Cannot read properties of null (reading 'login')'')"
| "get_login (JObj ps) =
     Inr (case map_of ps ''login'' of None \<Rightarrow> JUndefined | Some v \<Rightarrow> v)"
| "get_login v = Inr JUndefined"

section \<open>Numbers: IEEE 754 binary64\<close>

text \<open>
  Every arithmetic operator of the source works on doubles and rounds its exact result
  to the nearest double, ties to even. A finite double is modelled by the rational it
  denotes, and \<open>fl\<close> is that rounding for a 53-bit significand. The exponent is left
  unbounded: the model is the double arithmetic wherever no overflow or underflow
  occurs, which is the case for all counters and time values below \<open>2 ^ 53\<close>.
  Negative zero is identified with zero (they print and store alike).
\<close>

function ilog2 :: "int \<Rightarrow> int" where
  "ilog2 n = (if n < 2 then 0 else 1 + ilog2 (n div 2))"
  by pat_completeness auto
termination
  by (relation "measure nat") auto

declare ilog2.simps [simp del]

text \<open>The binary exponent of a non-zero number: \<open>2 ^ expo x \<le> \<bar>x\<bar> < 2 ^ (expo x + 1)\<close>.\<close>

definition expo :: "rat \<Rightarrow> int" where
  "expo x = (let a = \<bar>x\<bar> in
     if 1 \<le> a then ilog2 \<lfloor>a\<rfloor>
     else - ilog2 (\<lceil>1 / a\<rceil> - 1) - 1)"

definition round_ties_even :: "rat \<Rightarrow> int" where
  "round_ties_even x = (let f = \<lfloor>x\<rfloor>; d = x - of_int f in
     if d < 1 / 2 then f else if 1 / 2 < d then f + 1
     else if even f then f else f + 1)"

definition fl :: "rat \<Rightarrow> rat" where
  "fl x = (if x = 0 then 0 else
     (let u = 2 powi (expo x - 52) in of_int (round_ties_even (x / u)) * u))"

definition js_add :: "rat \<Rightarrow> rat \<Rightarrow> rat" where
  "js_add x y = fl (x + y)"

definition js_sub :: "rat \<Rightarrow> rat \<Rightarrow> rat" where
  "js_sub x y = fl (x - y)"

definition js_mul :: "rat \<Rightarrow> rat \<Rightarrow> rat" where
  "js_mul x y = fl (x * y)"

text \<open>\<^verbatim>\<open>x / y\<close> for a non-zero divisor; every divisor of the source is a counter plus one
  or the constant \<^verbatim>\<open>1000 * 60 * 60 * 24\<close>.\<close>

definition js_div :: "rat \<Rightarrow> rat \<Rightarrow> rat" where
  "js_div x y = fl (x / y)"

text \<open>\<^verbatim>\<open>Math.round\<close>: the nearest integer, ties towards \<open>+\<infinity>\<close>.\<close>

definition Math_round :: "rat \<Rightarrow> int" where
  "Math_round x = \<lfloor>x + 1 / 2\<rfloor>"

text \<open>A counter of the provider's JSON as the double that \<^verbatim>\<open>JSON.parse\<close> delivers.\<close>

definition num :: "nat \<Rightarrow> rat" where
  "num n = fl (of_nat n)"

text \<open>\<^verbatim>\<open>`${n}`\<close> for an integral number below \<open>10 ^ 21\<close> in magnitude: its decimal digits,
  with a minus sign when negative.\<close>

definition digit_char :: "nat \<Rightarrow> char" where
  "digit_char d =
     (if d = 0 then CHR ''0'' else if d = 1 then CHR ''1'' else if d = 2 then CHR ''2''
      else if d = 3 then CHR ''3'' else if d = 4 then CHR ''4'' else if d = 5 then CHR ''5''
      else if d = 6 then CHR ''6'' else if d = 7 then CHR ''7'' else if d = 8 then CHR ''8''
      else CHR ''9'')"

fun string_of_nat :: "nat \<Rightarrow> string" where
  "string_of_nat n =
     (if n < 10 then [digit_char n]
      else string_of_nat (n div 10) @ [digit_char (n mod 10)])"

declare string_of_nat.simps [simp del]

definition string_of_int :: "int \<Rightarrow> string" where
  "string_of_int k = (if k < 0 then CHR ''-'' # string_of_nat (nat (- k)) else string_of_nat (nat k))"

section \<open>Strings\<close>

text \<open>\<^verbatim>\<open>s.split(c)\<close> for a one-character separator: the pieces between the occurrences of
  \<open>c\<close>, empty pieces included; the empty string gives one empty piece.\<close>

fun split :: "char \<Rightarrow> string \<Rightarrow> string list" where
  "split c [] = [[]]"
| "split c (x # xs) =
     (if x = c then [] # split c xs
      else (case split c xs of [] \<Rightarrow> [[x]] | w # ws \<Rightarrow> (x # w) # ws))"

text \<open>\<^verbatim>\<open>parts.filter(Boolean)\<close> on strings keeps the non-empty ones.\<close>

definition filter_Boolean :: "string list \<Rightarrow> string list" where
  "filter_Boolean parts = filter (\<lambda>s. s \<noteq> []) parts"

section \<open>URL parser: \<^verbatim>\<open>extractRepoInfo\<close>\<close>

text \<open>The fields of a \<^verbatim>\<open>URL\<close> object that matter here: the two that the code reads,
  and the query string.\<close>

record url_obj =
  hostname :: string
  pathname :: string
  search :: string

record repo_info =
  info_owner :: string
  info_name :: string
  fullName :: string

text \<open>
  The body of the \<^verbatim>\<open>try\<close> block. The platform's \<^verbatim>\<open>URL\<close> constructor is a parameter:
  \<open>None\<close> is its \<^verbatim>\<open>TypeError\<close> on a string that is no URL.
\<close>

definition extractRepoInfo_try :: "(string \<Rightarrow> url_obj option) \<Rightarrow> string \<Rightarrow> js_error + repo_info" where
  "extractRepoInfo_try URL url =
     (case URL url of
        None \<Rightarrow> Inl (TypeError ''Invalid URL'')
      | Some urlObj \<Rightarrow>
          if hostname urlObj \<noteq> ''github.com'' then Inl (Error ''Not a valid GitHub URL'')
          else
            (let pathParts = filter_Boolean (split CHR ''/'' (pathname urlObj)) in
             if length pathParts < 2 then Inl (Error ''Not a valid repository URL'')
             else Inr \<lparr>info_owner = pathParts ! 0, info_name = pathParts ! 1,
                        fullName = pathParts ! 0 @ ''/'' @ pathParts ! 1\<rparr>))"

text \<open>The \<^verbatim>\<open>catch\<close> clause encloses the whole body, the two \<^verbatim>\<open>throw\<close> statements
  included, and replaces whatever was thrown.\<close>

definition extractRepoInfo :: "(string \<Rightarrow> url_obj option) \<Rightarrow> string \<Rightarrow> js_error + repo_info" where
  "extractRepoInfo URL url =
     (case extractRepoInfo_try URL url of
        Inl err \<Rightarrow> Inl (Error ''Invalid GitHub URL format'')
      | Inr repoInfo \<Rightarrow> Inr repoInfo)"

text \<open>
  A small \<^verbatim>\<open>URL\<close> constructor to run the parser on concrete strings. It reads
  lower-case \<^verbatim>\<open>http(s)://host[:port][/path][?query][#fragment]\<close> as the platform does and
  rejects everything else (userinfo, blanks in the host, other schemes).
\<close>

fun strip_prefix :: "string \<Rightarrow> string \<Rightarrow> string option" where
  "strip_prefix [] s = Some s"
| "strip_prefix (p # ps) [] = None"
| "strip_prefix (p # ps) (x # xs) = (if p = x then strip_prefix ps xs else None)"

definition URL_basic :: "string \<Rightarrow> url_obj option" where
  "URL_basic s =
     (case (case strip_prefix ''https://'' s of
              Some r \<Rightarrow> Some r
            | None \<Rightarrow> strip_prefix ''http://'' s) of
        None \<Rightarrow> None
      | Some r \<Rightarrow>
          (let ends_authority = (\<lambda>c. c = CHR ''/'' \<or> c = CHR ''?'' \<or> c = CHR ''#'');
               ends_path = (\<lambda>c. c = CHR ''?'' \<or> c = CHR ''#'');
               authority = takeWhile (\<lambda>c. \<not> ends_authority c) r;
               after = dropWhile (\<lambda>c. \<not> ends_authority c) r;
               host = takeWhile (\<lambda>c. c \<noteq> CHR '':'') authority;
               path = takeWhile (\<lambda>c. \<not> ends_path c) after;
               query = takeWhile (\<lambda>c. c \<noteq> CHR ''#'') (dropWhile (\<lambda>c. \<not> ends_path c) after)
           in if host = [] \<or> CHR ''@'' \<in> set authority \<or> CHR '' '' \<in> set authority then None
              else Some \<lparr>hostname = host,
                         pathname = (if path = [] then ''/'' else path),
                         search = (if query = ''?'' then [] else query)\<rparr>))"

section \<open>Metrics fetcher: \<^verbatim>\<open>fetchGitHubRepoData\<close>\<close>

text \<open>
  The provider's JSON object as the code reads it. The three counters are typed as the
  provider's schema has them, non-negative integers; the fields that are only tested,
  copied or dereferenced stay \<open>jsval\<close>.
\<close>

record repo_data =
  data_name :: jsval
  data_owner :: jsval
  full_name :: jsval
  stargazers_count :: nat
  forks_count :: nat
  open_issues_count :: nat
  language :: jsval
  pushed_at :: jsval

text \<open>A \<^verbatim>\<open>Response\<close>: \<open>json\<close> is the outcome of \<^verbatim>\<open>response.json()\<close>, which rejects on a body
  that is not JSON.\<close>

record response =
  ok :: bool
  status :: nat
  json :: "js_error + repo_data"

datatype fetch_outcome = Rejected js_error | Fulfilled response

text \<open>
  The platform around the component: the \<^verbatim>\<open>URL\<close> constructor, \<^verbatim>\<open>fetch\<close> (what the request
  to a given address comes to), the clock read by \<^verbatim>\<open>Date.now()\<close>, the time value of
  \<^verbatim>\<open>new Date(v)\<close> (\<open>None\<close> for an invalid date, whose time value is \<^verbatim>\<open>NaN\<close>) and the instant
  of \<^verbatim>\<open>new Date()\<close>. Time values are integers, milliseconds since the epoch, of magnitude
  at most \<open>8.64 * 10 ^ 15\<close>.
\<close>

record platform =
  URL :: "string \<Rightarrow> url_obj option"
  fetch :: "string \<Rightarrow> fetch_outcome"
  Date_now :: int
  Date_value :: "jsval \<Rightarrow> int option"
  new_Date :: int

text \<open>The record handed to the store. \<open>createdat\<close> keeps the instant that
  \<^verbatim>\<open>toISOString\<close> prints.\<close>

record repo_row =
  name :: jsval
  owner :: jsval
  fullname :: jsval
  stars :: nat
  forks :: nat
  issues :: nat
  mainlanguage :: jsval
  healthscore :: int
  activitylevel :: string
  trendingfactor :: int
  createdat :: int

text \<open>Line 88:
  \<^verbatim>\<open>Math.round((1 - (data.open_issues_count / (data.stargazers_count + 1))) * 100)\<close>\<close>

definition healthscore_expr :: "nat \<Rightarrow> nat \<Rightarrow> int" where
  "healthscore_expr star_count issue_count =
     Math_round (js_mul (js_sub 1 (js_div (num issue_count) (js_add (num star_count) 1))) 100)"

text \<open>Line 89:
  \<^verbatim>\<open>data.pushed_at ? `${Math.round((Date.now() - new Date(data.pushed_at)) / (1000 * 60 * 60 * 24))} days` : 'Unknown'\<close>.
  An invalid date makes the difference, the quotient and the rounded value \<^verbatim>\<open>NaN\<close>.\<close>

definition ms_per_day :: rat where
  "ms_per_day = js_mul (js_mul (js_mul 1000 60) 60) 24"

definition activitylevel_expr :: "int \<Rightarrow> (jsval \<Rightarrow> int option) \<Rightarrow> jsval \<Rightarrow> string" where
  "activitylevel_expr now Date_of pushed =
     (if to_boolean pushed then
        (case Date_of pushed of
           None \<Rightarrow> ''NaN''
         | Some t \<Rightarrow> string_of_int (Math_round (js_div (js_sub (of_int now) (of_int t)) ms_per_day)))
        @ '' days''
      else ''Unknown'')"

text \<open>Line 90: \<^verbatim>\<open>Math.round((data.stargazers_count / (data.forks_count + 1)) * 10)\<close>\<close>

definition trendingfactor_expr :: "nat \<Rightarrow> nat \<Rightarrow> int" where
  "trendingfactor_expr star_count fork_count =
     Math_round (js_mul (js_div (num star_count) (js_add (num fork_count) 1)) 10)"

definition fetchGitHubRepoData_try :: "platform \<Rightarrow> repo_info \<Rightarrow> js_error + repo_row" where
  "fetchGitHubRepoData_try P repoInfo =
     (case fetch P (''https://api.github.com/repos/'' @ fullName repoInfo) of
        Rejected err \<Rightarrow> Inl err
      | Fulfilled response \<Rightarrow>
          if \<not> ok response
          then Inl (Error (''GitHub API error: '' @ string_of_nat (status response)))
          else
            (case json response of
               Inl err \<Rightarrow> Inl err
             | Inr data \<Rightarrow>
                 (case get_login (data_owner data) of
                    Inl err \<Rightarrow> Inl err
                  | Inr login \<Rightarrow>
                      Inr \<lparr>name = data_name data,
                           owner = login,
                           fullname = full_name data,
                           stars = stargazers_count data,
                           forks = forks_count data,
                           issues = open_issues_count data,
                           mainlanguage = js_or (language data) (JStr ''Unknown''),
                           healthscore =
                             healthscore_expr (stargazers_count data) (open_issues_count data),
                           activitylevel =
                             activitylevel_expr (Date_now P) (Date_value P) (pushed_at data),
                           trendingfactor =
                             trendingfactor_expr (stargazers_count data) (forks_count data),
                           createdat = new_Date P\<rparr>)))"

text \<open>The \<^verbatim>\<open>catch\<close> clause wraps the message of whatever was thrown.\<close>

definition fetchGitHubRepoData :: "platform \<Rightarrow> repo_info \<Rightarrow> js_error + repo_row" where
  "fetchGitHubRepoData P repoInfo =
     (case fetchGitHubRepoData_try P repoInfo of
        Inl err \<Rightarrow> Inl (Error (''Failed to fetch repository data: '' @ message err))
      | Inr repoData \<Rightarrow> Inr repoData)"

section \<open>Orchestration: \<^verbatim>\<open>fetchRepos\<close> and \<^verbatim>\<open>handleSubmit\<close>\<close>

text \<open>A row as the store returns it: the inserted fields and the key it assigned.\<close>

record stored_row = repo_row +
  row_id :: nat

text \<open>The query that \<^verbatim>\<open>from(t).select(c).order(col, { ascending: a })\<close> builds.\<close>

record select_query =
  from_table :: string
  select_columns :: string
  order_column :: string
  ascending :: bool

datatype store_call = Insert string "repo_row list" | Select select_query

text \<open>
  The store client is a collaborator of the component. Its two operations are parameters
  over a store state \<open>'s\<close>: an insert answers with its \<^verbatim>\<open>error\<close> (\<open>None\<close> for \<^verbatim>\<open>null\<close>) and
  the new state, a select with its \<^verbatim>\<open>error\<close> or its \<^verbatim>\<open>data\<close>.
\<close>

record 's store_client =
  insert_rows :: "string \<Rightarrow> repo_row list \<Rightarrow> 's \<Rightarrow> js_error option \<times> 's"
  select_rows :: "select_query \<Rightarrow> 's \<Rightarrow> js_error + stored_row list"

text \<open>The state of the component (its six \<^verbatim>\<open>useState\<close> cells), the store behind the
  client and the calls made to the client so far.\<close>

record 's app =
  url :: string
  repos :: "stored_row list"
  loading :: bool
  error :: string
  detailedError :: string
  showDetailedError :: bool
  db :: 's
  calls :: "store_call list"

text \<open>\<^verbatim>\<open>err.message || 'No additional error details available'\<close>\<close>

definition message_or_default :: "js_error \<Rightarrow> string" where
  "message_or_default err =
     (if message err \<noteq> [] then message err else ''No additional error details available'')"

definition repos_query :: select_query where
  "repos_query =
     \<lparr>from_table = ''repos'', select_columns = ''*'', order_column = ''createdat'',
      ascending = False\<rparr>"

definition fetchRepos :: "'s store_client \<Rightarrow> 's app \<Rightarrow> 's app" where
  "fetchRepos S st =
     (let st1 = st\<lparr>calls := calls st @ [Select repos_query]\<rparr> in
      case select_rows S repos_query (db st) of
        Inr data \<Rightarrow>
          st1\<lparr>repos := data, error := [], detailedError := [], showDetailedError := False\<rparr>
      | Inl err \<Rightarrow>
          st1\<lparr>error := ''Failed to fetch repos'', detailedError := message_or_default err\<rparr>)"

text \<open>The \<^verbatim>\<open>try\<close> block of \<^verbatim>\<open>handleSubmit\<close>: the first stage that throws ends it, with the
  state reached so far.\<close>

definition handleSubmit_try :: "platform \<Rightarrow> 's store_client \<Rightarrow> 's app \<Rightarrow> (js_error \<times> 's app) + 's app" where
  "handleSubmit_try P S st =
     (case extractRepoInfo (URL P) (url st) of
        Inl err \<Rightarrow> Inl (err, st)
      | Inr repoInfo \<Rightarrow>
          (case fetchGitHubRepoData P repoInfo of
             Inl err \<Rightarrow> Inl (err, st)
           | Inr repoData \<Rightarrow>
               (let (err, db') = insert_rows S ''repos'' [repoData] (db st);
                    st1 = st\<lparr>db := db', calls := calls st @ [Insert ''repos'' [repoData]]\<rparr>
                in case err of
                     Some e \<Rightarrow> Inl (e, st1)
                   | None \<Rightarrow> Inr (fetchRepos S (st1\<lparr>url := []\<rparr>)))))"

definition handleSubmit :: "platform \<Rightarrow> 's store_client \<Rightarrow> 's app \<Rightarrow> 's app" where
  "handleSubmit P S st =
     (let st0 = st\<lparr>loading := True, error := [], detailedError := [],
                   showDetailedError := False\<rparr>;
          st2 = (case handleSubmit_try P S st0 of
                   Inr st1 \<Rightarrow> st1
                 | Inl (err, st1) \<Rightarrow>
                     st1\<lparr>error := ''Failed to add repository'',
                         detailedError := message_or_default err\<rparr>)
      in st2\<lparr>loading := False\<rparr>)"

subsection \<open>The store\<close>

text \<open>
  Modelled from the spec: the persistence store, an external service that is not part of
  the source. Section 6 of the specification gives its contract: \<^verbatim>\<open>insertOne\<close> stores the
  record under a fresh key, \<^verbatim>\<open>selectAll\<close> returns the records in the order asked for.
  The table is \<^verbatim>\<open>repos\<close>; rows can be ordered by \<^verbatim>\<open>createdat\<close>.
\<close>

record table_store =
  rows :: "stored_row list"
  next_id :: nat

definition with_id :: "nat \<Rightarrow> repo_row \<Rightarrow> stored_row" where
  "with_id k r =
     \<lparr>name = name r, owner = owner r, fullname = fullname r, stars = stars r,
      forks = forks r, issues = issues r, mainlanguage = mainlanguage r,
      healthscore = healthscore r, activitylevel = activitylevel r,
      trendingfactor = trendingfactor r, createdat = createdat r, row_id = k\<rparr>"

fun insert_all :: "repo_row list \<Rightarrow> table_store \<Rightarrow> table_store" where
  "insert_all [] s = s"
| "insert_all (r # rs) s =
     insert_all rs (s\<lparr>rows := rows s @ [with_id (next_id s) r], next_id := Suc (next_id s)\<rparr>)"

definition table_insert :: "string \<Rightarrow> repo_row list \<Rightarrow> table_store \<Rightarrow> js_error option \<times> table_store" where
  "table_insert t rs s =
     (if t = ''repos'' then (None, insert_all rs s)
      else (Some (Error ''relation does not exist''), s))"

definition table_select :: "select_query \<Rightarrow> table_store \<Rightarrow> js_error + stored_row list" where
  "table_select q s =
     (if from_table q \<noteq> ''repos'' then Inl (Error ''relation does not exist'')
      else if order_column q \<noteq> ''createdat'' then Inl (Error ''column does not exist'')
      else if ascending q then Inr (sort_key createdat (rows s))
      else Inr (sort_key (\<lambda>r. - createdat r) (rows s)))"

definition table_client :: "table_store store_client" where
  "table_client = \<lparr>insert_rows = table_insert, select_rows = table_select\<rparr>"

section \<open>Example inputs\<close>

text \<open>The repository of the specification's examples, a platform that answers the
  request for it with a given outcome, and an empty dashboard over an empty table.\<close>

definition react_info :: repo_info where
  "react_info =
     \<lparr>info_owner = ''facebook'', info_name = ''react'', fullName = ''facebook/react''\<rparr>"

definition react_data :: repo_data where
  "react_data =
     \<lparr>data_name = JStr ''react'', data_owner = JObj [(''login'', JStr ''facebook'')],
      full_name = JStr ''facebook/react'', stargazers_count = 100, forks_count = 9,
      open_issues_count = 10, language = JStr ''JavaScript'',
      pushed_at = JStr ''2024-01-01T00:00:00Z''\<rparr>"

definition example_platform :: "fetch_outcome \<Rightarrow> platform" where
  "example_platform outcome =
     \<lparr>URL = URL_basic,
      fetch = (\<lambda>address. if address = ''https://api.github.com/repos/facebook/react''
                          then outcome else Rejected (TypeError ''Failed to fetch'')),
      Date_now = 1704456000000,
      Date_value = (\<lambda>v. if v = JStr ''2024-01-01T00:00:00Z'' then Some 1704067200000
                         else None),
      new_Date = 1704456000123\<rparr>"

definition not_found :: response where
  "not_found =
     \<lparr>ok = False, status = 404, json = Inl (SyntaxError ''Unexpected end of JSON input'')\<rparr>"

definition found :: "repo_data \<Rightarrow> response" where
  "found data = \<lparr>ok = True, status = 200, json = Inr data\<rparr>"

definition example_app :: "string \<Rightarrow> table_store app" where
  "example_app u =
     \<lparr>url = u, repos = [], loading = False, error = [], detailedError = [],
      showDetailedError = False, db = \<lparr>rows = [], next_id = 1\<rparr>, calls = []\<rparr>"

text \<open>The row that \<open>react_data\<close> becomes on the example platform, and a table holding
  two rows inserted in the order of their creation.\<close>

definition react_row :: repo_row where
  "react_row =
     \<lparr>name = JStr ''react'', owner = JStr ''facebook'', fullname = JStr ''facebook/react'',
      stars = 100, forks = 9, issues = 10, mainlanguage = JStr ''JavaScript'',
      healthscore = 90, activitylevel = ''5 days'', trendingfactor = 100,
      createdat = 1704456000123\<rparr>"

definition two_rows :: "table_store app" where
  "two_rows =
     (example_app [])\<lparr>db := insert_all [react_row\<lparr>createdat := 10\<rparr>,
                                            react_row\<lparr>createdat := 20\<rparr>]
                               \<lparr>rows = [], next_id = 1\<rparr>\<rparr>"


section \<open>Rounding to a double\<close>

lemma ilog2_nonneg: "0 \<le> ilog2 n"
proof (induction n rule: ilog2.induct)
  case (1 n)
  then show ?case by (subst ilog2.simps) auto
qed

lemma ilog2_bounds:
  "1 \<le> n \<Longrightarrow> 2 ^ nat (ilog2 n) \<le> n \<and> n < 2 * 2 ^ nat (ilog2 n)"
proof (induction n rule: ilog2.induct)
  case (1 n)
  show ?case
  proof (cases "n < 2")
    case True
    with 1 have "n = 1" by simp
    then show ?thesis by (subst (1 2) ilog2.simps) simp
  next
    case False
    then have h: "1 \<le> n div 2" by simp
    from 1(1) [OF False h]
    have ih: "2 ^ nat (ilog2 (n div 2)) \<le> n div 2" "n div 2 < 2 * 2 ^ nat (ilog2 (n div 2))"
      by simp_all
    have eq: "ilog2 n = 1 + ilog2 (n div 2)"
      using False by (subst ilog2.simps) simp
    have p: "(2::int) ^ nat (1 + ilog2 (n div 2)) = 2 * 2 ^ nat (ilog2 (n div 2))"
      using ilog2_nonneg [of "n div 2"] by (simp add: nat_add_distrib)
    show ?thesis
      unfolding eq p using ih by auto
  qed
qed

lemma ilog2_less:
  assumes "1 \<le> n" and "n < 2 ^ k"
  shows "ilog2 n < int k"
proof -
  have "(2::int) ^ nat (ilog2 n) < 2 ^ k"
    using ilog2_bounds [OF assms(1)] assms(2) by linarith
  then have "nat (ilog2 n) < k" by simp
  then show ?thesis using ilog2_nonneg [of n] by linarith
qed

lemma round_ties_even_of_int [simp]: "round_ties_even (of_int k) = k"
  by (simp add: round_ties_even_def)

lemma round_ties_even_upper: "of_int (round_ties_even x) \<le> x + 1 / 2"
  unfolding round_ties_even_def Let_def by (auto simp: not_less) linarith+


lemma floor_le_round_ties_even: "\<lfloor>x\<rfloor> \<le> round_ties_even x"
  by (simp add: round_ties_even_def Let_def)

lemma round_ties_even_ge: "of_int m \<le> x \<Longrightarrow> m \<le> round_ties_even x"
proof -
  assume "of_int m \<le> x"
  then have "m \<le> \<lfloor>x\<rfloor>" by (simp add: le_floor_iff)
  also have "\<dots> \<le> round_ties_even x" by (rule floor_le_round_ties_even)
  finally show ?thesis .
qed

lemma round_ties_even_le: "x \<le> of_int m \<Longrightarrow> round_ties_even x \<le> m"
proof -
  assume a: "x \<le> of_int m"
  have "of_int (round_ties_even x) < (of_int m :: rat) + 1"
    using round_ties_even_upper [of x] a by linarith
  then have "round_ties_even x < m + 1"
    by (metis of_int_1 of_int_add of_int_less_iff)
  then show ?thesis by simp
qed


lemma fl_integral:
  assumes "x \<noteq> 0" and "x / 2 powi (expo x - 52) = of_int m"
  shows "fl x = x"
proof -
  let ?u = "(2::rat) powi (expo x - 52)"
  have u: "?u \<noteq> 0" by simp
  have "fl x = of_int (round_ties_even (x / ?u)) * ?u"
    using assms(1) by (simp add: fl_def Let_def)
  also have "\<dots> = of_int m * ?u" by (simp only: assms(2) round_ties_even_of_int)
  also have "\<dots> = (x / ?u) * ?u" by (simp only: assms(2))
  also have "\<dots> = x" using u by simp
  finally show ?thesis .
qed

lemma expo_of_int: "k \<noteq> 0 \<Longrightarrow> expo (of_int k) = ilog2 \<bar>k\<bar>"
proof -
  assume "k \<noteq> 0"
  then have "1 \<le> \<bar>k\<bar>" by simp
  then have "(1::rat) \<le> \<bar>of_int k\<bar>"
    by (metis of_int_1 of_int_abs of_int_le_iff)
  moreover have "\<lfloor>\<bar>of_int k :: rat\<bar>\<rfloor> = \<bar>k\<bar>"
    by (metis floor_of_int of_int_abs)
  ultimately show ?thesis by (simp add: expo_def Let_def)
qed

lemma fl_of_int:
  assumes "\<bar>k\<bar> \<le> 2 ^ 53"
  shows "fl (of_int k) = of_int k"
proof (cases "k = 0")
  case True
  then show ?thesis by (simp add: fl_def)
next
  case False
  then have k1: "1 \<le> \<bar>k\<bar>" by simp
  have e: "expo (of_int k) = ilog2 \<bar>k\<bar>" by (rule expo_of_int [OF False])
  have x0: "(of_int k :: rat) \<noteq> 0" using False by simp
  show ?thesis
  proof (cases "\<bar>k\<bar> = 2 ^ 53")
    case True
    have "ilog2 (2 ^ 53) = 53" by code_simp
    then have "ilog2 \<bar>k\<bar> = 53" by (simp only: True)
    moreover have "k = 2 ^ 53 \<or> k = - (2 ^ 53)" using True by linarith
    ultimately have "(of_int k :: rat) / 2 powi (expo (of_int k) - 52) = of_int (k div 2)"
      unfolding e by auto
    then show ?thesis by (rule fl_integral [OF x0])
  next
    case False
    with assms have "\<bar>k\<bar> < 2 ^ 53" by simp
    then have "ilog2 \<bar>k\<bar> < 53" using ilog2_less [OF k1, of 53] by simp
    then have "ilog2 \<bar>k\<bar> - 52 = - int (nat (52 - ilog2 \<bar>k\<bar>))" by simp
    then obtain n where n: "ilog2 \<bar>k\<bar> - 52 = - int n" ..
    have "(of_int k :: rat) / 2 powi (expo (of_int k) - 52) = of_int (k * 2 ^ n)"
      unfolding e n by (simp add: power_int_minus field_simps)
    then show ?thesis by (rule fl_integral [OF x0])
  qed
qed

lemma int_le_pow2: "n \<le> 2 ^ k \<Longrightarrow> int n \<le> 2 ^ k"
proof -
  assume "n \<le> 2 ^ k"
  then have "int n \<le> int (2 ^ k)" by (simp only: of_nat_le_iff)
  then show ?thesis by simp
qed

lemma num_exact: "n \<le> 2 ^ 53 \<Longrightarrow> num n = of_nat n"
proof -
  assume "n \<le> 2 ^ 53"
  then have "\<bar>int n\<bar> \<le> 2 ^ 53" using int_le_pow2 [of n 53] by simp
  from fl_of_int [OF this] show ?thesis by (simp add: num_def)
qed

lemma Math_round_of_int [simp]: "Math_round (of_int k) = k"
  unfolding Math_round_def by (rule floor_unique) simp_all

lemma js_add_num_1: "n < 2 ^ 53 \<Longrightarrow> js_add (num n) 1 = of_nat n + 1"
proof -
  assume a: "n < 2 ^ 53"
  then have "Suc n \<le> 2 ^ 53" by simp
  then have "\<bar>int n + 1\<bar> \<le> 2 ^ 53" using int_le_pow2 [of "Suc n" 53] by simp
  from fl_of_int [OF this] a show ?thesis
    by (simp add: js_add_def num_exact)
qed

lemma expo_less:
  assumes "x \<noteq> 0" and "\<bar>x\<bar> < 2 ^ k"
  shows "expo x < int k"
proof (cases "1 \<le> \<bar>x\<bar>")
  case True
  then have "1 \<le> \<lfloor>\<bar>x\<bar>\<rfloor>" by simp
  moreover have "\<lfloor>\<bar>x\<bar>\<rfloor> < 2 ^ k"
  proof -
    have "\<bar>x\<bar> < of_int (2 ^ k)" using assms(2) by simp
    then show ?thesis by (simp only: floor_less_iff)
  qed
  ultimately have "ilog2 \<lfloor>\<bar>x\<bar>\<rfloor> < int k" by (rule ilog2_less)
  with True show ?thesis by (simp add: expo_def Let_def)
next
  case False
  then have "expo x = - ilog2 (\<lceil>1 / \<bar>x\<bar>\<rceil> - 1) - 1" by (simp add: expo_def Let_def)
  with ilog2_nonneg [of "\<lceil>1 / \<bar>x\<bar>\<rceil> - 1"] show ?thesis by linarith
qed

lemma fl_scaled:
  assumes "x \<noteq> 0" and "expo x \<le> 52" and "n = nat (52 - expo x)"
  shows "fl x = of_int (round_ties_even (x * 2 ^ n)) / 2 ^ n"
proof -
  have eq: "expo x - 52 = - int n" using assms by simp
  have "(2::rat) powi (- int n) = 1 / 2 ^ n"
    by (simp add: power_int_minus field_simps)
  then have "(2::rat) powi (expo x - 52) = 1 / 2 ^ n" by (simp only: eq)
  with assms(1) show ?thesis by (simp add: fl_def Let_def)
qed

text \<open>\<open>expo\<close> finds the binade of a number.\<close>

lemma powi_nat: "0 \<le> k \<Longrightarrow> (2::rat) powi k = 2 ^ nat k"
  by (simp add: power_int_def)

lemma expo_bounds:
  assumes "x \<noteq> 0"
  shows "2 powi expo x \<le> \<bar>x\<bar> \<and> \<bar>x\<bar> < 2 powi (expo x + 1)"
proof (cases "1 \<le> \<bar>x\<bar>")
  case True
  define n where "n = \<lfloor>\<bar>x\<bar>\<rfloor>"
  have n1: "1 \<le> n" using True by (simp add: n_def)
  have e: "expo x = ilog2 n" using True by (simp add: expo_def Let_def n_def)
  have k: "0 \<le> ilog2 n" by (rule ilog2_nonneg)
  have b: "2 ^ nat (ilog2 n) \<le> n" "n < 2 * 2 ^ nat (ilog2 n)"
    using ilog2_bounds [OF n1] by simp_all
  have "(2::rat) powi expo x = of_int (2 ^ nat (ilog2 n))" by (simp add: e powi_nat [OF k])
  also have "\<dots> \<le> of_int n" using b(1) by (simp only: of_int_le_iff)
  also have "\<dots> \<le> \<bar>x\<bar>" by (simp add: n_def)
  finally have lo: "2 powi expo x \<le> \<bar>x\<bar>" .
  have "n + 1 \<le> 2 * 2 ^ nat (ilog2 n)" using b(2) by simp
  then have "(of_int (n + 1) :: rat) \<le> of_int (2 * 2 ^ nat (ilog2 n))"
    by (simp only: of_int_le_iff)
  also have "\<dots> = 2 * 2 ^ nat (ilog2 n)" by simp
  finally have "(of_int (n + 1) :: rat) \<le> 2 * 2 ^ nat (ilog2 n)" .
  moreover have "\<bar>x\<bar> < of_int (n + 1)" unfolding n_def by linarith
  ultimately have "\<bar>x\<bar> < 2 * 2 ^ nat (ilog2 n)" by (rule less_le_trans [rotated])
  moreover have "(2::rat) powi (expo x + 1) = 2 * 2 ^ nat (ilog2 n)"
    using k by (simp add: e power_int_add powi_nat)
  ultimately show ?thesis using lo by simp
next
  case False
  define a where "a = \<bar>x\<bar>"
  have a0: "0 < a" and a1: "a < 1" using assms False by (simp_all add: a_def)
  define n where "n = \<lceil>1 / a\<rceil> - 1"
  have "1 < 1 / a" using a0 a1 by simp
  then have n1: "1 \<le> n" unfolding n_def by linarith
  have e: "expo x = - ilog2 n - 1" using False by (simp add: expo_def Let_def n_def a_def)
  have k: "0 \<le> ilog2 n" by (rule ilog2_nonneg)
  define p :: rat where "p = 2 ^ nat (ilog2 n)"
  have p0: "0 < p" by (simp add: p_def)
  have b: "2 ^ nat (ilog2 n) \<le> n" "n < 2 * 2 ^ nat (ilog2 n)"
    using ilog2_bounds [OF n1] by simp_all
  have "p = of_int (2 ^ nat (ilog2 n))" by (simp add: p_def)
  also have "\<dots> \<le> of_int n" using b(1) by (simp only: of_int_le_iff)
  also have "\<dots> < 1 / a" unfolding n_def by linarith
  finally have lt: "p < 1 / a" .
  have "n + 1 \<le> 2 * 2 ^ nat (ilog2 n)" using b(2) by simp
  then have "(of_int (n + 1) :: rat) \<le> of_int (2 * 2 ^ nat (ilog2 n))"
    by (simp only: of_int_le_iff)
  also have "\<dots> = 2 * p" by (simp add: p_def)
  finally have "(of_int (n + 1) :: rat) \<le> 2 * p" .
  moreover have "1 / a \<le> of_int (n + 1)" unfolding n_def by simp
  ultimately have le: "1 / a \<le> 2 * p" by (rule order_trans [rotated])
  have e1: "(2::rat) powi expo x = 1 / (2 * p)"
  proof -
    have "expo x = - (ilog2 n + 1)" by (simp add: e)
    then have "(2::rat) powi expo x = inverse (2 powi (ilog2 n + 1))"
      by (simp only: power_int_minus)
    also have "\<dots> = 1 / (2 * p)"
      using k by (simp add: power_int_add powi_nat p_def field_simps)
    finally show ?thesis .
  qed
  have e2: "(2::rat) powi (expo x + 1) = 1 / p"
  proof -
    have "expo x + 1 = - ilog2 n" by (simp add: e)
    then have "(2::rat) powi (expo x + 1) = inverse (2 powi ilog2 n)"
      by (simp only: power_int_minus)
    also have "\<dots> = 1 / p"
      using k by (simp add: powi_nat p_def field_simps)
    finally show ?thesis .
  qed
  have "1 / (2 * p) \<le> a" using le a0 p0 by (simp add: field_simps)
  moreover have "a < 1 / p" using lt a0 p0 by (simp add: field_simps)
  ultimately show ?thesis unfolding e1 e2 a_def by simp
qed

text \<open>The rounded value has a significand of 53 bits.\<close>

lemma fl_significand:
  assumes "x \<noteq> 0"
  shows "\<exists>m. fl x = of_int m * 2 powi (expo x - 52) \<and> 2 ^ 52 \<le> \<bar>m\<bar> \<and> \<bar>m\<bar> \<le> 2 ^ 53"
proof -
  let ?u = "(2::rat) powi (expo x - 52)"
  let ?m = "round_ties_even (x / ?u)"
  have u: "0 < ?u" by simp
  have split_u: "(2::rat) powi expo x = 2 ^ 52 * ?u" "(2::rat) powi (expo x + 1) = 2 ^ 53 * ?u"
    by (simp_all add: power_int_diff power_int_add)
  have b: "2 ^ 52 * ?u \<le> \<bar>x\<bar>" "\<bar>x\<bar> < 2 ^ 53 * ?u"
    using expo_bounds [OF assms] unfolding split_u by simp_all
  have q: "2 ^ 52 \<le> \<bar>x / ?u\<bar>" "\<bar>x / ?u\<bar> < 2 ^ 53"
    using b u by (simp_all add: abs_divide le_divide_eq divide_less_eq)
  have "2 ^ 52 \<le> \<bar>?m\<bar> \<and> \<bar>?m\<bar> \<le> 2 ^ 53"
  proof (cases "0 \<le> x / ?u")
    case True
    then have lo: "(of_int (2 ^ 52) :: rat) \<le> x / ?u" and hi: "x / ?u \<le> of_int (2 ^ 53)"
      using q by simp_all
    have "2 ^ 52 \<le> ?m" using lo by (rule round_ties_even_ge)
    moreover have "?m \<le> 2 ^ 53" using hi by (rule round_ties_even_le)
    ultimately show ?thesis by simp
  next
    case False
    then have hi: "x / ?u \<le> (of_int (- (2 ^ 52)) :: rat)" and lo: "of_int (- (2 ^ 53)) \<le> x / ?u"
      using q by simp_all
    have "?m \<le> - (2 ^ 52)" using hi by (rule round_ties_even_le)
    moreover have "- (2 ^ 53) \<le> ?m" using lo by (rule round_ties_even_ge)
    ultimately show ?thesis by simp
  qed
  moreover have "fl x = of_int ?m * ?u" using assms by (simp add: fl_def Let_def)
  ultimately show ?thesis by blast
qed

text \<open>Some doubles: one tenth; the quotient \<open>17 / 40\<close>; the first integers that are
  not doubles, rounded to even; and the sum of one tenth and one fifth.\<close>

lemma fl_examples:
  "fl (1 / 10) = 3602879701896397 / 36028797018963968 \<and>
   fl (17 / 40) = 7656119366529843 / 18014398509481984 \<and>
   fl (9007199254740993) = 9007199254740992 \<and>
   fl (9007199254740995) = 9007199254740996 \<and>
   js_add (1 / 10) (1 / 5) \<noteq> 3 / 10"
  by code_simp

text \<open>Rounding keeps the sign and never reaches zero.\<close>

lemma fl_nonneg: "0 \<le> x \<Longrightarrow> 0 \<le> fl x"
proof -
  assume x: "0 \<le> x"
  have "(of_int 0 :: rat) \<le> x / 2 powi (expo x - 52)" using x by simp
  then have "0 \<le> round_ties_even (x / 2 powi (expo x - 52))" by (rule round_ties_even_ge)
  then show ?thesis by (simp add: fl_def Let_def)
qed

lemma fl_nonzero: "x \<noteq> 0 \<Longrightarrow> fl x \<noteq> 0"
proof -
  assume "x \<noteq> 0"
  from fl_significand [OF this] obtain m where
    m: "fl x = of_int m * 2 powi (expo x - 52)" "2 ^ 52 \<le> \<bar>m\<bar>" by blast
  from m(2) have "m \<noteq> 0" by auto
  with m(1) show ?thesis by simp
qed





section \<open>The derived metrics\<close>

text \<open>No division of the three expressions is by zero: a counter plus one and the
  milliseconds of a day are positive doubles.\<close>

lemma ms_per_day_eq: "ms_per_day = 86400000"
  by code_simp

lemma divisors_nonzero: "js_add (num n) 1 \<noteq> 0" "ms_per_day \<noteq> 0"
proof -
  have "0 \<le> num n" unfolding num_def by (rule fl_nonneg) simp
  then have "num n + 1 \<noteq> 0" by linarith
  then show "js_add (num n) 1 \<noteq> 0" unfolding js_add_def by (rule fl_nonzero)
  show "ms_per_day \<noteq> 0" by (simp add: ms_per_day_eq)
qed

subsection \<open>Health score\<close>







text \<open>
  Halfway values are where the doubles show, by one at most
  (\<open>healthscore_expr_near_exact\<close>): for 39 stars and 17 open issues the exact value is
  \<open>57.5\<close>, the doubles give \<open>57.49999999999999\<close>, and the score is 57 where rounding the
  exact value gives 58.
\<close>

lemma healthscore_not_exact:
  "healthscore_expr 39 17 = 57 \<and> Math_round ((1 - 17 / 40) * 100) = 58"
  by code_simp

subsection \<open>Trending factor\<close>


lemma trendingfactor_expr_no_forks:
  assumes "s \<le> 2 ^ 49"
  shows "trendingfactor_expr s 0 = 10 * int s"
proof -
  have s: "int s \<le> 2 ^ 49" using assms by (rule int_le_pow2)
  have a: "num s = of_int (int s)"
    using assms by (simp add: num_exact)
  have b: "js_add (num 0) 1 = 1"
    using js_add_num_1 [of 0] by simp
  have c: "js_div (of_int (int s)) 1 = of_int (int s)"
    using s fl_of_int [of "int s"] by (simp add: js_div_def)
  have e: "js_mul (of_int (int s)) 10 = of_int (10 * int s)"
    using s fl_of_int [of "10 * int s"] by (simp add: js_mul_def algebra_simps)
  show ?thesis
    unfolding trendingfactor_expr_def a b c e by (rule Math_round_of_int)
qed





subsection \<open>Activity level\<close>

text \<open>The quotient of a difference of time values by the milliseconds of a day is
  rounded to a double before \<^verbatim>\<open>Math.round\<close> sees it. As long as the difference is below
  \<open>2 ^ 53\<close> in magnitude that rounding never crosses a half: the count of days is the one
  that the exact quotient rounds to.\<close>

lemma days_exact:
  assumes "\<bar>d\<bar> \<le> 2 ^ 53"
  shows "Math_round (fl (of_int d / 86400000)) = Math_round (of_int d / 86400000)"
proof (cases "d = 0")
  case True
  then show ?thesis by (simp add: fl_def)
next
  case False
  define q :: rat where "q = of_int d / 86400000"
  define K where "K = Math_round q"
  have q0: "q \<noteq> 0" using False by (simp add: q_def)
  have "\<bar>q\<bar> = of_int \<bar>d\<bar> / 86400000" by (simp add: q_def)
  also have "\<dots> \<le> of_int (2 ^ 53) / 86400000"
    using assms by (simp add: divide_le_cancel)
  also have "\<dots> < 2 ^ 27" by simp
  finally have "expo q < 27" using expo_less [OF q0, of 27] by simp
  define n where "n = nat (52 - expo q)"
  have n26: "26 \<le> n" using \<open>expo q < 27\<close> by (simp add: n_def)
  have flq: "fl q = of_int (round_ties_even (q * 2 ^ n)) / 2 ^ n"
    by (rule fl_scaled [OF q0 _ n_def]) (use \<open>expo q < 27\<close> in simp)
  have K1: "of_int K \<le> q + 1 / 2" and K2: "q + 1 / 2 < of_int K + 1"
    unfolding K_def Math_round_def by linarith+
  obtain m where m: "n = Suc m" using n26 by (cases n) auto
  have p2: "(2::rat) ^ n = 2 * 2 ^ m" by (simp add: m)
  \<comment> \<open>the lower side: \<open>K - 1/2\<close> is a multiple of the unit\<close>
  have "of_int ((2 * K - 1) * 2 ^ m) \<le> q * 2 ^ n"
  proof -
    have "(of_int (2 * K - 1) :: rat) \<le> 2 * q" using K1 by simp
    then have "(of_int (2 * K - 1) :: rat) * 2 ^ m \<le> 2 * q * 2 ^ m"
      by simp
    then show ?thesis by (simp add: p2 mult.commute mult.left_commute)
  qed
  then have lo: "(2 * K - 1) * 2 ^ m \<le> round_ties_even (q * 2 ^ n)"
    by (rule round_ties_even_ge)
  \<comment> \<open>the upper side: \<open>q\<close> stays \<open>1 / 86400000\<close> below \<open>K + 1/2\<close>\<close>
  have "of_int d < (of_int ((2 * K + 1) * 43200000) :: rat)"
    using K2 by (simp add: q_def field_simps)
  then have "d < (2 * K + 1) * 43200000" by (simp only: of_int_less_iff)
  then have "d \<le> (2 * K + 1) * 43200000 - 1" by simp
  then have "(of_int d :: rat) \<le> of_int ((2 * K + 1) * 43200000 - 1)"
    by (simp only: of_int_le_iff)
  then have qup: "q \<le> of_int K + 1 / 2 - 1 / 86400000"
    by (simp add: q_def field_simps)
  have big: "(1::rat) / 2 < 2 ^ n / 86400000"
  proof -
    have "(2::rat) ^ 26 \<le> 2 ^ n" using n26 by (intro power_increasing) simp_all
    then show ?thesis by simp
  qed
  have "q * 2 ^ n \<le> (of_int K + 1 / 2 - 1 / 86400000) * 2 ^ n"
    using qup by simp
  also have "\<dots> = of_int ((2 * K + 1) * 2 ^ m) - 2 ^ n / 86400000"
    by (simp add: p2 field_simps)
  finally have "q * 2 ^ n + 1 / 2 < of_int ((2 * K + 1) * 2 ^ m)"
    using big by linarith
  with round_ties_even_upper [of "q * 2 ^ n"]
  have "(of_int (round_ties_even (q * 2 ^ n)) :: rat) < of_int ((2 * K + 1) * 2 ^ m)"
    by linarith
  then have hi: "round_ties_even (q * 2 ^ n) < (2 * K + 1) * 2 ^ m"
    by (simp only: of_int_less_iff)
  \<comment> \<open>so the rounded quotient lies in the same half-open unit interval\<close>
  have "of_int K \<le> fl q + 1 / 2"
  proof -
    have "(of_int ((2 * K - 1) * 2 ^ m) :: rat) \<le> of_int (round_ties_even (q * 2 ^ n))"
      using lo by (simp only: of_int_le_iff)
    then have "(of_int ((2 * K - 1) * 2 ^ m) :: rat) / 2 ^ n \<le> fl q"
      unfolding flq by (rule divide_right_mono) simp
    moreover have "(of_int ((2 * K - 1) * 2 ^ m) :: rat) / 2 ^ n = of_int K - 1 / 2"
      by (simp add: p2 field_simps)
    ultimately show ?thesis by linarith
  qed
  moreover have "fl q + 1 / 2 < of_int K + 1"
  proof -
    have "(of_int (round_ties_even (q * 2 ^ n)) :: rat) < of_int ((2 * K + 1) * 2 ^ m)"
      using hi by (simp only: of_int_less_iff)
    then have "fl q < (of_int ((2 * K + 1) * 2 ^ m) :: rat) / 2 ^ n"
      unfolding flq by (rule divide_strict_right_mono) simp
    moreover have "(of_int ((2 * K + 1) * 2 ^ m) :: rat) / 2 ^ n = of_int K + 1 / 2"
      by (simp add: p2 field_simps)
    ultimately show ?thesis by linarith
  qed
  ultimately have "Math_round (fl q) = K"
    unfolding Math_round_def by (simp add: floor_eq_iff)
  then show ?thesis by (simp add: K_def q_def)
qed

lemma digit_char_not_space: "digit_char d \<noteq> CHR '' ''"
  by (simp add: digit_char_def)

lemma string_of_nat_no_space: "CHR '' '' \<notin> set (string_of_nat n)"
proof (induction n rule: string_of_nat.induct)
  case (1 n)
  then show ?case
    by (subst string_of_nat.simps) (auto simp: digit_char_def)
qed

lemma string_of_int_no_space: "CHR '' '' \<notin> set (string_of_int k)"
  by (simp add: string_of_int_def string_of_nat_no_space)

lemma split_no_separator: "c \<notin> set s \<Longrightarrow> split c s = [s]"
  by (induction s) auto

lemma split_at_separator: "c \<notin> set a \<Longrightarrow> split c (a @ c # b) = a # split c b"
  by (induction a) auto

lemma split_days: "split CHR '' '' (string_of_int k @ '' days'') = [string_of_int k, ''days'']"
proof -
  have "split CHR '' '' ''days'' = [''days'']" by (rule split_no_separator) simp
  then show ?thesis
    using split_at_separator [OF string_of_int_no_space, of k "''days''"] by simp
qed

lemma js_sub_exact:
  "\<bar>a - b\<bar> \<le> 2 ^ 53 \<Longrightarrow> js_sub (of_int a) (of_int b) = of_int (a - b)"
  using fl_of_int [of "a - b"] by (simp add: js_sub_def)

lemma days_rounded:
  assumes "\<bar>now - t\<bar> \<le> 2 ^ 53"
  shows "Math_round (js_div (js_sub (of_int now) (of_int t)) ms_per_day) =
         Math_round (of_int (now - t) / 86400000)"
  using days_exact [OF assms] by (simp add: js_sub_exact [OF assms] ms_per_day_eq js_div_def)

text \<open>
  C3. When \<^verbatim>\<open>pushed_at\<close> is present and denotes an instant \<open>t\<close>, the activity level is the
  decimal count of days followed by \<^verbatim>\<open> days\<close>, and splitting it at the blank gives exactly
  these two tokens; the count is \<^verbatim>\<open>Math.round\<close> of the quotient computed in doubles, which
  for differences below \<open>2 ^ 53\<close> milliseconds is the exact quotient rounded. When
  \<^verbatim>\<open>pushed_at\<close> is absent (\<^verbatim>\<open>undefined\<close> or \<^verbatim>\<open>null\<close>) it is the single token \<^verbatim>\<open>Unknown\<close>. As
  long as every present value denotes an instant there is no third shape.
\<close>

theorem activitylevel_shape:
  "(to_boolean p \<and> Date_of p = Some t \<longrightarrow>
      activitylevel_expr now Date_of p =
        string_of_int (Math_round (js_div (js_sub (of_int now) (of_int t)) ms_per_day)) @ '' days'' \<and>
      split CHR '' '' (activitylevel_expr now Date_of p) =
        [string_of_int (Math_round (js_div (js_sub (of_int now) (of_int t)) ms_per_day)), ''days'']) \<and>
   (to_boolean p \<and> Date_of p = Some t \<and> \<bar>now - t\<bar> \<le> 2 ^ 53 \<longrightarrow>
      activitylevel_expr now Date_of p =
        string_of_int (Math_round (of_int (now - t) / 86400000)) @ '' days'') \<and>
   (p = JUndefined \<or> p = JNull \<longrightarrow>
      activitylevel_expr now Date_of p = ''Unknown'' \<and>
      split CHR '' '' (activitylevel_expr now Date_of p) = [''Unknown'']) \<and>
   ((to_boolean p \<longrightarrow> Date_of p \<noteq> None) \<longrightarrow>
      activitylevel_expr now Date_of p = ''Unknown'' \<or>
      (\<exists>N. activitylevel_expr now Date_of p = string_of_int N @ '' days''))"
proof (intro conjI impI)
  assume a: "to_boolean p \<and> Date_of p = Some t"
  then show "activitylevel_expr now Date_of p =
      string_of_int (Math_round (js_div (js_sub (of_int now) (of_int t)) ms_per_day)) @ '' days''"
    by (simp add: activitylevel_expr_def)
  then show "split CHR '' '' (activitylevel_expr now Date_of p) =
      [string_of_int (Math_round (js_div (js_sub (of_int now) (of_int t)) ms_per_day)), ''days'']"
    by (simp only: split_days)
next
  assume "to_boolean p \<and> Date_of p = Some t \<and> \<bar>now - t\<bar> \<le> 2 ^ 53"
  then show "activitylevel_expr now Date_of p =
      string_of_int (Math_round (of_int (now - t) / 86400000)) @ '' days''"
    by (simp add: activitylevel_expr_def days_rounded)
next
  assume a: "p = JUndefined \<or> p = JNull"
  then show u: "activitylevel_expr now Date_of p = ''Unknown''"
    by (auto simp: activitylevel_expr_def)
  show "split CHR '' '' (activitylevel_expr now Date_of p) = [''Unknown'']"
    unfolding u by (rule split_no_separator) simp
next
  assume "to_boolean p \<longrightarrow> Date_of p \<noteq> None"
  then show "activitylevel_expr now Date_of p = ''Unknown'' \<or>
      (\<exists>N. activitylevel_expr now Date_of p = string_of_int N @ '' days'')"
    by (auto simp: activitylevel_expr_def)
qed

text \<open>Four and a half days after the last push, and no push date at all.\<close>

theorem activitylevel_shape_witness:
  "activitylevel_expr 1704456000000 (Date_value (example_platform (Rejected (Error []))))
     (JStr ''2024-01-01T00:00:00Z'') = ''5 days'' \<and>
   split CHR '' '' ''5 days'' = [''5'', ''days''] \<and>
   activitylevel_expr 1704456000000 (Date_value (example_platform (Rejected (Error [])))) JNull =
     ''Unknown''"
proof -
  let ?D = "Date_value (example_platform (Rejected (Error [])))"
  let ?p = "JStr ''2024-01-01T00:00:00Z''"
  have d: "?D ?p = Some 1704067200000" by (simp add: example_platform_def)
  have b: "to_boolean ?p" by simp
  have r: "\<bar>1704456000000 - 1704067200000 :: int\<bar> \<le> 2 ^ 53" by simp
  have n: "string_of_int 5 = ''5''"
    by code_simp
  have m: "Math_round (js_div (js_sub (of_int 1704456000000) (of_int 1704067200000)) ms_per_day) = 5"
    by code_simp
  have "activitylevel_expr 1704456000000 ?D ?p = ''5 days'' \<and>
        split CHR '' '' (activitylevel_expr 1704456000000 ?D ?p) = [''5'', ''days'']"
    using activitylevel_shape [of ?p ?D 1704067200000 1704456000000] d b r n m
    by (simp del: of_int_numeral)
  moreover have "activitylevel_expr 1704456000000 ?D JNull = ''Unknown''"
    using activitylevel_shape [of JNull ?D 0 1704456000000] by simp
  ultimately show ?thesis by simp
qed

text \<open>A present value that is no date, outside the provider's schema, prints the
  \<^verbatim>\<open>NaN\<close> of its time value.\<close>

lemma activitylevel_invalid_date:
  "to_boolean p \<Longrightarrow> Date_of p = None \<Longrightarrow> activitylevel_expr now Date_of p = ''NaN days''"
  by (simp add: activitylevel_expr_def)

section \<open>The URL parser\<close>

text \<open>
  C5. A URL that the platform parses, whose host is \<^verbatim>\<open>github.com\<close> and whose path has
  at least two non-empty segments, is accepted: the owner is the first segment, the name
  the second, the full name the two joined by a slash. Further segments (\<open>rest\<close>) and the
  query (\<open>search urlObj\<close>) are not looked at.
\<close>

theorem extractRepoInfo_ok:
  assumes "ctor u = Some urlObj"
    and "hostname urlObj = ''github.com''"
    and "filter_Boolean (split CHR ''/'' (pathname urlObj)) = a # b # rest"
  shows "extractRepoInfo ctor u =
           Inr \<lparr>info_owner = a, info_name = b, fullName = a @ ''/'' @ b\<rparr>"
  using assms by (simp add: extractRepoInfo_def extractRepoInfo_try_def)

text \<open>The example of the specification, and the same repository addressed with a
  sub-path, a query and a fragment.\<close>

theorem extractRepoInfo_ok_witness:
  "extractRepoInfo URL_basic ''https://github.com/facebook/react'' =
     Inr \<lparr>info_owner = ''facebook'', info_name = ''react'', fullName = ''facebook/react''\<rparr> \<and>
   extractRepoInfo URL_basic ''https://github.com/facebook/react/issues/7?q=open#top'' =
     Inr \<lparr>info_owner = ''facebook'', info_name = ''react'', fullName = ''facebook/react''\<rparr>"
proof -
  have u1: "URL_basic ''https://github.com/facebook/react'' =
      Some \<lparr>hostname = ''github.com'', pathname = ''/facebook/react'', search = []\<rparr>"
    by code_simp
  have u2: "URL_basic ''https://github.com/facebook/react/issues/7?q=open#top'' =
      Some \<lparr>hostname = ''github.com'', pathname = ''/facebook/react/issues/7'',
            search = ''?q=open''\<rparr>"
    by code_simp
  have "extractRepoInfo URL_basic ''https://github.com/facebook/react'' =
      Inr \<lparr>info_owner = ''facebook'', info_name = ''react'',
           fullName = ''facebook'' @ ''/'' @ ''react''\<rparr>"
    by (rule extractRepoInfo_ok [where ctor = URL_basic and rest = "[]", OF u1])
      (simp_all add: filter_Boolean_def)
  moreover have "extractRepoInfo URL_basic ''https://github.com/facebook/react/issues/7?q=open#top'' =
      Inr \<lparr>info_owner = ''facebook'', info_name = ''react'',
           fullName = ''facebook'' @ ''/'' @ ''react''\<rparr>"
    by (rule extractRepoInfo_ok [where ctor = URL_basic and rest = "[''issues'', ''7'']", OF u2])
      (simp_all add: filter_Boolean_def)
  ultimately show ?thesis by simp
qed

text \<open>In terms of the path itself: after the leading slash come the owner, a slash and
  the name, and then nothing or a slash and anything.\<close>

lemma path_segments:
  assumes "a \<noteq> []" and "b \<noteq> []" and "c \<notin> set a" and "c \<notin> set b"
  shows "filter_Boolean (split c (c # a @ c # b)) = [a, b]"
    and "filter_Boolean (split c (c # a @ c # b @ c # rest)) =
           a # b # filter_Boolean (split c rest)"
  using assms split_at_separator [of c a "b"] split_at_separator [of c a "b @ c # rest"]
    split_at_separator [of c b rest] split_no_separator [of c b]
  by (simp_all add: filter_Boolean_def)

lemma extractRepoInfo_path:
  assumes "ctor u = Some urlObj" and "hostname urlObj = ''github.com''"
    and "a \<noteq> []" and "b \<noteq> []" and "CHR ''/'' \<notin> set a" and "CHR ''/'' \<notin> set b"
    and "pathname urlObj = CHR ''/'' # a @ CHR ''/'' # b \<or>
         pathname urlObj = CHR ''/'' # a @ CHR ''/'' # b @ CHR ''/'' # rest"
  shows "extractRepoInfo ctor u =
           Inr \<lparr>info_owner = a, info_name = b, fullName = a @ ''/'' @ b\<rparr>"
  using assms path_segments(1) [of a b "CHR ''/''"] path_segments(2) [of a b "CHR ''/''" rest]
  by (auto simp: extractRepoInfo_def extractRepoInfo_try_def Let_def)

text \<open>Whatever makes the parser fail, the caller gets the same error: the \<^verbatim>\<open>catch\<close>
  clause replaces the two specific errors thrown inside the \<^verbatim>\<open>try\<close> block as well.\<close>

lemma extractRepoInfo_failure:
  "extractRepoInfo ctor u = Inl e \<Longrightarrow> e = Error ''Invalid GitHub URL format''"
  by (auto simp: extractRepoInfo_def split: sum.splits)

text \<open>
  C6. A URL on another host is to fail with an error of its own. The \<^verbatim>\<open>try\<close> block
  throws \<^verbatim>\<open>Not a valid GitHub URL\<close> for \<^verbatim>\<open>https://example.com/a/b\<close>, but what leaves
  \<^verbatim>\<open>extractRepoInfo\<close> is \<^verbatim>\<open>Invalid GitHub URL format\<close>, the error of a string that is no URL
  at all.
\<close>

theorem unsupported_host_masked:
  "extractRepoInfo_try URL_basic ''https://example.com/a/b'' =
     Inl (Error ''Not a valid GitHub URL'') \<and>
   extractRepoInfo URL_basic ''https://example.com/a/b'' =
     Inl (Error ''Invalid GitHub URL format'') \<and>
   extractRepoInfo URL_basic ''not a url'' = Inl (Error ''Invalid GitHub URL format'')"
  by code_simp

text \<open>
  C7. A URL on \<^verbatim>\<open>github.com\<close> with fewer than two path segments is to fail with an error
  of its own. The \<^verbatim>\<open>try\<close> block throws \<^verbatim>\<open>Not a valid repository URL\<close> for
  \<^verbatim>\<open>https://github.com/onlyowner\<close>, but what leaves \<^verbatim>\<open>extractRepoInfo\<close> is again
  \<^verbatim>\<open>Invalid GitHub URL format\<close>.
\<close>

theorem incomplete_path_masked:
  "extractRepoInfo_try URL_basic ''https://github.com/onlyowner'' =
     Inl (Error ''Not a valid repository URL'') \<and>
   extractRepoInfo URL_basic ''https://github.com/onlyowner'' =
     Inl (Error ''Invalid GitHub URL format'') \<and>
   extractRepoInfo URL_basic ''https:/github'' = Inl (Error ''Invalid GitHub URL format'')"
  by code_simp

section \<open>The metrics fetcher\<close>

subsection \<open>Failures\<close>









subsection \<open>Primary language\<close>

lemma fetchGitHubRepoData_row:
  assumes "fetch P (''https://api.github.com/repos/'' @ fullName ri) = Fulfilled r"
    and "json r = Inr data" and "fetchGitHubRepoData P ri = Inr row"
  shows "mainlanguage row = js_or (language data) (JStr ''Unknown'')"
  using assms
  by (auto simp: fetchGitHubRepoData_def fetchGitHubRepoData_try_def split: if_splits sum.splits)

text \<open>
  C10. \<^verbatim>\<open>data.language || 'Unknown'\<close> puts \<^verbatim>\<open>Unknown\<close> for every falsy language, the empty
  string as much as \<^verbatim>\<open>null\<close> or a missing field; the rows for an empty and for a missing
  language are the same row.
\<close>

theorem mainlanguage_falsy:
  assumes "fetch P (''https://api.github.com/repos/'' @ fullName ri) = Fulfilled r"
    and "json r = Inr data" and "fetchGitHubRepoData P ri = Inr row"
  shows "(\<not> to_boolean (language data) \<longrightarrow> mainlanguage row = JStr ''Unknown'') \<and>
         (language data = JStr [] \<or> language data = JNull \<or> language data = JUndefined \<longrightarrow>
            mainlanguage row = JStr ''Unknown'') \<and>
         fetchGitHubRepoData (P\<lparr>fetch := \<lambda>a. Fulfilled (r\<lparr>json := Inr (data\<lparr>language := JStr []\<rparr>)\<rparr>)\<rparr>) ri =
         fetchGitHubRepoData (P\<lparr>fetch := \<lambda>a. Fulfilled (r\<lparr>json := Inr (data\<lparr>language := JUndefined\<rparr>)\<rparr>)\<rparr>) ri"
proof -
  have m: "mainlanguage row = js_or (language data) (JStr ''Unknown'')"
    using assms by (rule fetchGitHubRepoData_row)
  have "fetchGitHubRepoData (P\<lparr>fetch := \<lambda>a. Fulfilled (r\<lparr>json := Inr (data\<lparr>language := JStr []\<rparr>)\<rparr>)\<rparr>) ri =
        fetchGitHubRepoData (P\<lparr>fetch := \<lambda>a. Fulfilled (r\<lparr>json := Inr (data\<lparr>language := JUndefined\<rparr>)\<rparr>)\<rparr>) ri"
    by (cases "get_login (data_owner data)")
      (simp_all add: fetchGitHubRepoData_def fetchGitHubRepoData_try_def js_or_def)
  with m show ?thesis by (auto simp: js_or_def)
qed

theorem mainlanguage_falsy_witness:
  "fetchGitHubRepoData (example_platform (Fulfilled (found (react_data\<lparr>language := JStr []\<rparr>))))
     react_info = Inr (react_row\<lparr>mainlanguage := JStr ''Unknown''\<rparr>) \<and>
   mainlanguage (react_row\<lparr>mainlanguage := JStr ''Unknown''\<rparr>) = JStr ''Unknown''"
proof -
  let ?data = "react_data\<lparr>language := JStr []\<rparr>"
  let ?P = "example_platform (Fulfilled (found ?data))"
  have a: "fetch ?P (''https://api.github.com/repos/'' @ fullName react_info) = Fulfilled (found ?data)"
    by (simp add: example_platform_def react_info_def)
  have b: "json (found ?data) = Inr ?data" by (simp add: found_def)
  have c: "fetchGitHubRepoData ?P react_info = Inr (react_row\<lparr>mainlanguage := JStr ''Unknown''\<rparr>)"
    by code_simp
  have d: "language ?data = JStr []" by simp
  show ?thesis
    using mainlanguage_falsy [OF a b c] c d by blast
qed

section \<open>Failures of \<^verbatim>\<open>handleSubmit\<close>\<close>

lemma handleSubmit_try_parse_fails:
  "extractRepoInfo (URL P) (url st) = Inl e \<Longrightarrow> handleSubmit_try P S st = Inl (e, st)"
  by (simp add: handleSubmit_try_def)

lemma handleSubmit_try_fetch_fails:
  "extractRepoInfo (URL P) (url st) = Inr ri \<Longrightarrow> fetchGitHubRepoData P ri = Inl e \<Longrightarrow>
   handleSubmit_try P S st = Inl (e, st)"
  by (simp add: handleSubmit_try_def)

text \<open>
  C1. When parsing the URL or fetching the metrics fails, \<^verbatim>\<open>handleSubmit\<close> makes no call
  to the store client, so no insert, and the store is as it was; the failure is reported
  in the component's error state. This holds for every store client and every platform.
\<close>

theorem handleSubmit_failure_no_insert:
  assumes "extractRepoInfo (URL P) (url st) = Inl e \<or>
           (\<exists>ri. extractRepoInfo (URL P) (url st) = Inr ri \<and>
                 fetchGitHubRepoData P ri = Inl e)"
  shows "db (handleSubmit P S st) = db st \<and>
         calls (handleSubmit P S st) = calls st \<and>
         error (handleSubmit P S st) = ''Failed to add repository'' \<and>
         detailedError (handleSubmit P S st) = message_or_default e"
proof -
  let ?st0 = "st\<lparr>loading := True, error := [], detailedError := [],
                 showDetailedError := False\<rparr>"
  have "url ?st0 = url st" by simp
  with assms have "handleSubmit_try P S ?st0 = Inl (e, ?st0)"
    by (auto simp: handleSubmit_try_parse_fails handleSubmit_try_fetch_fails)
  then show ?thesis
    by (simp add: handleSubmit_def)
qed

text \<open>A provider that answers 404, and a URL on another host, both over the table store.\<close>

theorem handleSubmit_failure_no_insert_witness:
  "db (handleSubmit (example_platform (Fulfilled not_found)) table_client
        (example_app ''https://github.com/facebook/react'')) = \<lparr>rows = [], next_id = 1\<rparr> \<and>
   calls (handleSubmit (example_platform (Fulfilled not_found)) table_client
        (example_app ''https://github.com/facebook/react'')) = [] \<and>
   db (handleSubmit (example_platform (Fulfilled (found react_data))) table_client
        (example_app ''https://example.com/a/b'')) = \<lparr>rows = [], next_id = 1\<rparr> \<and>
   calls (handleSubmit (example_platform (Fulfilled (found react_data))) table_client
        (example_app ''https://example.com/a/b'')) = []"
proof -
  let ?P = "example_platform (Fulfilled not_found)"
  let ?st = "example_app ''https://github.com/facebook/react''"
  let ?P' = "example_platform (Fulfilled (found react_data))"
  let ?st' = "example_app ''https://example.com/a/b''"
  have parse: "extractRepoInfo (URL ?P) (url ?st) = Inr react_info"
    by code_simp
  have fetch: "fetchGitHubRepoData ?P react_info =
      Inl (Error ''Failed to fetch repository data: GitHub API error: 404'')"
    by code_simp
  have parse': "extractRepoInfo (URL ?P') (url ?st') = Inl (Error ''Invalid GitHub URL format'')"
    by code_simp
  have "db (handleSubmit ?P table_client ?st) = db ?st \<and>
        calls (handleSubmit ?P table_client ?st) = calls ?st"
    using handleSubmit_failure_no_insert [of ?P ?st _ table_client] parse fetch by blast
  moreover have "db (handleSubmit ?P' table_client ?st') = db ?st' \<and>
        calls (handleSubmit ?P' table_client ?st') = calls ?st'"
    using handleSubmit_failure_no_insert [of ?P' ?st' _ table_client] parse' by blast
  ultimately show ?thesis
    by (simp add: example_app_def)
qed

text \<open>When both stages succeed the row is handed to the store, once, and the list is
  read again; on the example platform the table then holds the row of the example.\<close>

lemma handleSubmit_inserts_once:
  assumes "extractRepoInfo (URL P) (url st) = Inr ri" and "fetchGitHubRepoData P ri = Inr row"
  shows "db (handleSubmit P S st) = snd (insert_rows S ''repos'' [row] (db st))"
    and "\<exists>cs. calls (handleSubmit P S st) = calls st @ Insert ''repos'' [row] # cs"
  using assms
  by (auto simp: handleSubmit_def handleSubmit_try_def fetchRepos_def Let_def
      split: prod.splits option.splits sum.splits)

lemma handleSubmit_success_example:
  "handleSubmit (example_platform (Fulfilled (found react_data))) table_client
     (example_app ''https://github.com/facebook/react'') =
   \<lparr>url = [], repos = [with_id 1 react_row], loading = False, error = [], detailedError = [],
    showDetailedError = False, db = \<lparr>rows = [with_id 1 react_row], next_id = 2\<rparr>,
    calls = [Insert ''repos'' [react_row], Select repos_query]\<rparr>"
  by code_simp

section \<open>Listing the repositories\<close>

text \<open>Whatever the store, \<^verbatim>\<open>fetchRepos\<close> shows its answer as it comes, and keeps the old
  list when the store reports an error.\<close>

lemma fetchRepos_answer:
  "select_rows S repos_query (db st) = Inr data \<Longrightarrow>
     repos (fetchRepos S st) = data \<and> error (fetchRepos S st) = []"
  "select_rows S repos_query (db st) = Inl err \<Longrightarrow>
     repos (fetchRepos S st) = repos st \<and> error (fetchRepos S st) = ''Failed to fetch repos''"
  by (simp_all add: fetchRepos_def)

lemma table_select_repos_query:
  "table_select repos_query s = Inr (sort_key (\<lambda>r. - createdat r) (rows s))"
  by (simp add: table_select_def repos_query_def)

text \<open>
  C9. Over the table store, \<^verbatim>\<open>fetchRepos\<close> leaves in \<open>repos\<close> all rows of the store, newest
  first by \<open>createdat\<close>, with the error state cleared and the store untouched; over an
  empty store that list is empty and no error is set.
\<close>

theorem fetchRepos_newest_first:
  "repos (fetchRepos table_client st) = sort_key (\<lambda>r. - createdat r) (rows (db st)) \<and>
   sorted_wrt (\<lambda>a b. createdat b \<le> createdat a) (repos (fetchRepos table_client st)) \<and>
   mset (repos (fetchRepos table_client st)) = mset (rows (db st)) \<and>
   error (fetchRepos table_client st) = [] \<and>
   detailedError (fetchRepos table_client st) = [] \<and>
   db (fetchRepos table_client st) = db st \<and>
   (rows (db st) = [] \<longrightarrow> repos (fetchRepos table_client st) = [])"
proof -
  have r: "repos (fetchRepos table_client st) = sort_key (\<lambda>r. - createdat r) (rows (db st))"
    by (simp add: fetchRepos_def table_client_def table_select_repos_query)
  have "sorted (map (\<lambda>r. - createdat r) (sort_key (\<lambda>r. - createdat r) (rows (db st))))"
    by (rule sorted_sort_key)
  then have s: "sorted_wrt (\<lambda>a b. createdat b \<le> createdat a) (repos (fetchRepos table_client st))"
    unfolding r by (simp add: sorted_map)
  have e: "error (fetchRepos table_client st) = [] \<and>
      detailedError (fetchRepos table_client st) = [] \<and> db (fetchRepos table_client st) = db st"
    by (simp add: fetchRepos_def table_client_def table_select_repos_query)
  show ?thesis using r s e by simp
qed

text \<open>Two rows inserted oldest first come back newest first; the empty table gives the
  empty list.\<close>

theorem fetchRepos_newest_first_witness:
  "map createdat (repos (fetchRepos table_client two_rows)) = [20, 10] \<and>
   map row_id (repos (fetchRepos table_client two_rows)) = [2, 1] \<and>
   repos (fetchRepos table_client (example_app [])) = [] \<and>
   error (fetchRepos table_client (example_app [])) = []"
proof -
  have a: "map createdat (sort_key (\<lambda>r. - createdat r) (rows (db two_rows))) = [20, 10]"
    by code_simp
  have b: "map row_id (sort_key (\<lambda>r. - createdat r) (rows (db two_rows))) = [2, 1]"
    by code_simp
  have c: "rows (db (example_app [])) = []" by (simp add: example_app_def)
  show ?thesis
    using fetchRepos_newest_first [of two_rows] fetchRepos_newest_first [of "example_app []"] a b c
    by simp
qed

end
